theory Spec2Isabelle
  imports Main
begin

section \<open>The switch form: data model\<close>

text \<open>
  The component \<open>SwitchFormComponent\<close> owns a form group with five controls and switches
  the validators of those controls whenever the selected customer type changes.
  The string-literal union \<open>CustomerType\<close> and the keys of the interface \<open>SwitchForm\<close>
  are closed enumerations, so both become datatypes.
\<close>

datatype CustomerType = individual | corporate

datatype SwitchFormKey = customerType | name | nameKana | companyName | companyNameKana

text \<open>
  The only validator the tables mention is \<open>Validators.required\<close>. The statuses a control
  of this form can take are \<open>VALID\<close> and \<open>INVALID\<close>: there is no asynchronous validator and
  no control is ever disabled.
\<close>

datatype ValidatorFn = required

datatype Status = VALID | INVALID

text \<open>
  A form control, as far as this component reads or writes it: the current value (every
  control of the form holds a string at run time, the customer type included), the
  validators attached to it, and the cached outcome of the last validity evaluation.
  A control without validators (\<open>null\<close> in the forms library) has the empty list, and
  \<open>errors\<close> lists the keys of the error object, empty when the library holds \<open>null\<close>.
\<close>

record FormControl =
  "value" :: string
  validator :: "ValidatorFn list"
  errors :: "string list"
  status :: Status

text \<open>\<open>Validators.required\<close> rejects exactly the empty string.\<close>

fun runValidator :: "ValidatorFn \<Rightarrow> string \<Rightarrow> string option" where
  "runValidator required v = (if v = [] then Some ''required'' else None)"

definition runValidators :: "ValidatorFn list \<Rightarrow> string \<Rightarrow> string list" where
  "runValidators fns v = remdups (List.map_filter (\<lambda>fn. runValidator fn v) fns)"

definition clearValidators :: "FormControl \<Rightarrow> FormControl" where
  "clearValidators c = c\<lparr>validator := []\<rparr>"

text \<open>
  \<open>setValidators\<close> receives the result of a table lookup, which in the source is
  \<open>undefined\<close> for a missing key; the library then leaves the control without validators.
\<close>

definition setValidators :: "ValidatorFn list option \<Rightarrow> FormControl \<Rightarrow> FormControl" where
  "setValidators fns c = c\<lparr>validator := (case fns of None \<Rightarrow> [] | Some l \<Rightarrow> l)\<rparr>"

text \<open>
  \<open>updateValueAndValidity\<close> runs the validators of the control on its value and caches the
  outcome. The library then lets the parent group recompute its own status and emits
  change events; neither writes to any control, so both are left out.
\<close>

definition updateValueAndValidity :: "FormControl \<Rightarrow> FormControl" where
  "updateValueAndValidity c =
     (let es = runValidators (validator c) (value c)
      in c\<lparr>errors := es, status := (if es = [] then VALID else INVALID)\<rparr>)"

definition newFormControl :: "string \<Rightarrow> FormControl" where
  "newFormControl v = \<lparr>value = v, validator = [], errors = [], status = VALID\<rparr>"

section \<open>The static tables\<close>

definition defaultDisplayForms :: "SwitchFormKey list" where
  "defaultDisplayForms = [customerType]"

fun dynamicDisplayFormsPattern :: "CustomerType \<Rightarrow> SwitchFormKey list" where
  "dynamicDisplayFormsPattern individual = [name, nameKana]"
| "dynamicDisplayFormsPattern corporate = [companyName, companyNameKana]"

text \<open>
  \<open>formValidationManager\<close> is an object literal; \<open>Object.keys\<close> enumerates it in the order
  written, so it is kept as an association list.
\<close>

definition formValidationManager :: "(SwitchFormKey \<times> ValidatorFn list) list" where
  "formValidationManager =
     [(customerType, []),
      (name, [required]),
      (nameKana, [required]),
      (companyName, [required]),
      (companyNameKana, [required])]"

section \<open>The component\<close>

text \<open>
  The controls of the form group, keyed by name. Reading a key that is absent yields
  \<open>undefined\<close>, and calling a method on it throws a \<open>TypeError\<close>.
\<close>

type_synonym SwitchForm = "SwitchFormKey \<rightharpoonup> FormControl"

datatype error = TypeError

definition switchForm :: SwitchForm where
  "switchForm =
     [customerType \<mapsto> newFormControl ''individual'',
      name \<mapsto> newFormControl [],
      nameKana \<mapsto> newFormControl [],
      companyName \<mapsto> newFormControl [],
      companyNameKana \<mapsto> newFormControl []]"

definition getDynamicDisplayForms :: "CustomerType \<Rightarrow> SwitchFormKey list" where
  "getDynamicDisplayForms ct = dynamicDisplayFormsPattern ct"

text \<open>
  The computed signal \<open>dynamicDisplayForms\<close>, as a function of the value held by the
  signal \<open>_currentCustomerType\<close> (\<open>None\<close> is \<open>null\<close>).
\<close>

definition dynamicDisplayForms :: "CustomerType option \<Rightarrow> SwitchFormKey list" where
  "dynamicDisplayForms currentCustomerType =
     getDynamicDisplayForms (case currentCustomerType of None \<Rightarrow> individual | Some ct \<Rightarrow> ct)"

text \<open>
  \<open>this.switchForm.controls[form].m()\<close>: look the control up, fail when it is missing,
  otherwise store the control as the method left it.
\<close>

definition onControl ::
  "SwitchFormKey \<Rightarrow> (FormControl \<Rightarrow> FormControl) \<Rightarrow> SwitchForm \<Rightarrow> error + SwitchForm" where
  "onControl form m f = (case f form of None \<Rightarrow> Inl TypeError | Some c \<Rightarrow> Inr (f(form \<mapsto> m c)))"

fun forEach :: "('a \<Rightarrow> 's \<Rightarrow> error + 's) \<Rightarrow> 'a list \<Rightarrow> 's \<Rightarrow> error + 's" where
  "forEach body [] s = Inr s"
| "forEach body (x # xs) s = (case body x s of Inl e \<Rightarrow> Inl e | Inr s' \<Rightarrow> forEach body xs s')"

text \<open>The bodies of the two loops of \<open>_switchValidators\<close>, as what they do to one control.\<close>

definition applyValidators :: "SwitchFormKey \<Rightarrow> FormControl \<Rightarrow> FormControl" where
  "applyValidators form c =
     updateValueAndValidity
       (setValidators (map_of formValidationManager form) (clearValidators c))"

definition removeValidators :: "FormControl \<Rightarrow> FormControl" where
  "removeValidators c = updateValueAndValidity (clearValidators c)"

definition allForms :: "SwitchFormKey list" where
  "allForms = map fst formValidationManager"

definition hiddenForms :: "SwitchFormKey list \<Rightarrow> SwitchFormKey list" where
  "hiddenForms ddf =
     filter (\<lambda>form. \<not> (form \<in> set ddf \<or> form \<in> set defaultDisplayForms)) allForms"

definition switchValidators :: "SwitchFormKey list \<Rightarrow> SwitchForm \<Rightarrow> error + SwitchForm" where
  "switchValidators ddf f =
     (case forEach (\<lambda>form. onControl form (applyValidators form)) ddf f of
        Inl e \<Rightarrow> Inl e
      | Inr f1 \<Rightarrow> forEach (\<lambda>form. onControl form removeValidators) (hiddenForms ddf) f1)"

text \<open>
  The body of the effect registered in the constructor: \<open>_switchValidators\<close> on the
  current value of the computed signal.
\<close>

definition switchValidatorsEffect :: "CustomerType option \<Rightarrow> SwitchForm \<Rightarrow> error + SwitchForm" where
  "switchValidatorsEffect currentCustomerType f =
     switchValidators (dynamicDisplayForms currentCustomerType) f"

section \<open>Auxiliary facts\<close>

lemma SwitchFormKey_UNIV:
  "(UNIV :: SwitchFormKey set) = {customerType, name, nameKana, companyName, companyNameKana}"
proof -
  have "k \<in> {customerType, name, nameKana, companyName, companyNameKana}" for k
    by (cases k) simp_all
  then show ?thesis by blast
qed

lemma set_allForms: "set allForms = UNIV"
  by (simp add: allForms_def formValidationManager_def SwitchFormKey_UNIV)

lemma dom_switchForm: "dom switchForm = UNIV"
  by (simp add: switchForm_def SwitchFormKey_UNIV insert_commute)

lemma formValidationManager_lookup:
  "map_of formValidationManager form = Some (if form = customerType then [] else [required])"
  by (cases form) (simp_all add: formValidationManager_def)

lemma applyValidators_idem: "applyValidators k (applyValidators k c) = applyValidators k c"
  by (simp add: applyValidators_def updateValueAndValidity_def setValidators_def
      clearValidators_def Let_def)

lemma removeValidators_idem: "removeValidators (removeValidators c) = removeValidators c"
  by (simp add: removeValidators_def updateValueAndValidity_def clearValidators_def Let_def)

lemma forEach_onControl:
  assumes "set xs \<subseteq> dom f" and "\<And>k c. m k (m k c) = m k c"
  shows "forEach (\<lambda>k. onControl k (m k)) xs f =
         Inr (\<lambda>k. if k \<in> set xs then map_option (m k) (f k) else f k)"
  using assms(1)
proof (induction xs arbitrary: f)
  case Nil
  then show ?case by simp
next
  case (Cons x xs)
  from Cons.prems obtain c where c: "f x = Some c" by auto
  have sub: "set xs \<subseteq> dom (f(x \<mapsto> m x c))" using Cons.prems by auto
  have "forEach (\<lambda>k. onControl k (m k)) (x # xs) f =
        forEach (\<lambda>k. onControl k (m k)) xs (f(x \<mapsto> m x c))"
    by (simp add: onControl_def c)
  also have "\<dots> = Inr (\<lambda>k. if k \<in> set xs then map_option (m k) ((f(x \<mapsto> m x c)) k)
                           else (f(x \<mapsto> m x c)) k)"
    by (rule Cons.IH [OF sub])
  also have "(\<lambda>k. if k \<in> set xs then map_option (m k) ((f(x \<mapsto> m x c)) k)
                   else (f(x \<mapsto> m x c)) k) =
             (\<lambda>k. if k \<in> set (x # xs) then map_option (m k) (f k) else f k)"
    by (auto simp: fun_eq_iff c assms(2))
  finally show ?case .
qed

text \<open>
  What \<open>_switchValidators\<close> leaves behind, control by control, on a form that has all
  five controls.
\<close>

lemma switchValidators_eq:
  assumes "dom f = UNIV"
  shows "switchValidators ddf f =
         Inr (\<lambda>k. if k \<in> set ddf then map_option (applyValidators k) (f k)
                  else if k \<in> set defaultDisplayForms then f k
                  else map_option removeValidators (f k))"
proof -
  let ?f1 = "\<lambda>k. if k \<in> set ddf then map_option (applyValidators k) (f k) else f k"
  have one: "forEach (\<lambda>form. onControl form (applyValidators form)) ddf f = Inr ?f1"
    by (rule forEach_onControl) (simp_all add: assms applyValidators_idem)
  have "dom ?f1 = UNIV" using assms by (auto simp: dom_def)
  then have sub: "set (hiddenForms ddf) \<subseteq> dom ?f1" by simp
  have two: "forEach (\<lambda>form. onControl form removeValidators) (hiddenForms ddf) ?f1 =
             Inr (\<lambda>k. if k \<in> set (hiddenForms ddf) then map_option removeValidators (?f1 k)
                      else ?f1 k)"
    by (rule forEach_onControl [OF sub]) (rule removeValidators_idem)
  have "(\<lambda>k. if k \<in> set (hiddenForms ddf) then map_option removeValidators (?f1 k) else ?f1 k) =
        (\<lambda>k. if k \<in> set ddf then map_option (applyValidators k) (f k)
             else if k \<in> set defaultDisplayForms then f k
             else map_option removeValidators (f k))"
    by (auto simp: fun_eq_iff hiddenForms_def set_allForms)
  with one two show ?thesis by (simp add: switchValidators_def)
qed

lemma switchValidators_dom:
  assumes "dom f = UNIV" and "switchValidators ddf f = Inr f'"
  shows "dom f' = UNIV"
proof -
  have "f' = (\<lambda>k. if k \<in> set ddf then map_option (applyValidators k) (f k)
                  else if k \<in> set defaultDisplayForms then f k
                  else map_option removeValidators (f k))"
    using assms by (simp add: switchValidators_eq)
  then show ?thesis using assms(1) by (auto simp: dom_def)
qed

lemma runValidators_Nil: "runValidators [] v = []"
  by (simp add: runValidators_def List.map_filter_simps)

lemma runValidators_required:
  "runValidators [required] v = (if v = [] then [''required''] else [])"
  by (simp add: runValidators_def List.map_filter_simps)

lemma applyValidators_validator:
  "map_of formValidationManager k = Some (validator (applyValidators k c))"
  by (simp add: applyValidators_def updateValueAndValidity_def setValidators_def
      clearValidators_def Let_def formValidationManager_lookup)

lemma applyValidators_value: "value (applyValidators k c) = value c"
  by (simp add: applyValidators_def updateValueAndValidity_def setValidators_def
      clearValidators_def Let_def)

lemma applyValidators_errors:
  "errors (applyValidators k c) =
   runValidators (validator (applyValidators k c)) (value (applyValidators k c))"
  by (simp add: applyValidators_def updateValueAndValidity_def setValidators_def
      clearValidators_def Let_def)

lemma applyValidators_status:
  "status (applyValidators k c) = (if errors (applyValidators k c) = [] then VALID else INVALID)"
  by (simp add: applyValidators_def updateValueAndValidity_def setValidators_def
      clearValidators_def Let_def)

lemma removeValidators_eq:
  "removeValidators c = c\<lparr>validator := [], errors := [], status := VALID\<rparr>"
  by (simp add: removeValidators_def updateValueAndValidity_def clearValidators_def
      Let_def runValidators_Nil)

lemma dom_UNIV_Some: "dom f = UNIV \<Longrightarrow> \<exists>c. f k = Some c"
  by (auto simp: dom_def)

lemma switchValidators_fixed:
  assumes "dom f = UNIV" and "switchValidators s f = Inr f'"
  shows "switchValidators s f' = Inr f'"
proof -
  let ?g = "\<lambda>h k. if k \<in> set s then map_option (applyValidators k) (h k)
                  else if k \<in> set defaultDisplayForms then h k
                  else map_option removeValidators (h k)"
  have f': "f' = ?g f" using assms by (simp add: switchValidators_eq)
  have "dom f' = UNIV" by (rule switchValidators_dom [OF assms])
  then have "switchValidators s f' = Inr (?g f')" by (rule switchValidators_eq)
  moreover have "?g f' = f'"
    unfolding f'
    by (auto simp: fun_eq_iff option.map_comp comp_def applyValidators_idem
        removeValidators_idem)
  ultimately show ?thesis by simp
qed

lemma validator_applyValidators:
  "validator (applyValidators k c) = (if k = customerType then [] else [required])"
  using applyValidators_validator [of k c] by (simp add: formValidationManager_lookup)

lemma applyValidators_removeValidators:
  "applyValidators k (removeValidators c) = applyValidators k c"
  by (simp add: applyValidators_def removeValidators_def updateValueAndValidity_def
      setValidators_def clearValidators_def Let_def)

lemma removeValidators_applyValidators:
  "removeValidators (applyValidators k c) = removeValidators c"
  by (simp add: applyValidators_def removeValidators_def updateValueAndValidity_def
      setValidators_def clearValidators_def Let_def)

lemma forEach_invariant:
  assumes step: "\<And>x s. I s \<Longrightarrow> \<exists>s'. body x s = Inr s' \<and> I s'"
    and init: "I s"
  shows "\<exists>s'. forEach body xs s = Inr s' \<and> I s'"
  using init
proof (induction xs arbitrary: s)
  case Nil
  then show ?case by simp
next
  case (Cons x xs)
  from step [OF Cons.prems] obtain s1 where s1: "body x s = Inr s1" "I s1" by blast
  from Cons.IH [OF s1(2)] s1(1) show ?case by simp
qed

lemma switchValidators_customerType:
  assumes "dom f = UNIV" and "f customerType = Some c" and "validator c = []"
  shows "\<exists>f'. switchValidators ddf f = Inr f' \<and> dom f' = UNIV \<and>
              (\<exists>c'. f' customerType = Some c' \<and> validator c' = [])"
proof -
  let ?f' = "\<lambda>k. if k \<in> set ddf then map_option (applyValidators k) (f k)
                  else if k \<in> set defaultDisplayForms then f k
                  else map_option removeValidators (f k)"
  have run: "switchValidators ddf f = Inr ?f'" by (rule switchValidators_eq [OF assms(1)])
  then have "dom ?f' = UNIV" by (rule switchValidators_dom [OF assms(1)])
  moreover have "\<exists>c'. ?f' customerType = Some c' \<and> validator c' = []"
    using assms(2,3) by (simp add: defaultDisplayForms_def validator_applyValidators)
  ultimately show ?thesis using run by blast
qed

lemma value_removeValidators: "value (removeValidators c) = value c"
  by (simp add: removeValidators_eq)

section \<open>The active-field computation\<close>

text \<open>
  Claim C1, as the specification states it: for every category the computed signal
  returns the default fields together with the fields registered for the category.
  The source returns the registered fields alone; for \<open>individual\<close> the result lacks
  \<open>customerType\<close>, so it differs from the union.
\<close>

theorem dynamicDisplayForms_union_counterexample:
  "set (dynamicDisplayForms (Some individual)) \<noteq>
   set defaultDisplayForms \<union> set (dynamicDisplayFormsPattern individual)"
proof
  assume eq: "set (dynamicDisplayForms (Some individual)) =
              set defaultDisplayForms \<union> set (dynamicDisplayFormsPattern individual)"
  have "customerType \<in> set defaultDisplayForms \<union> set (dynamicDisplayFormsPattern individual)"
    by (simp add: defaultDisplayForms_def)
  with eq have "customerType \<in> set (dynamicDisplayForms (Some individual))"
    by simp
  then show False
    by (simp add: dynamicDisplayForms_def getDynamicDisplayForms_def)
qed

text \<open>
  Claim C1, amended: for every category \<open>c\<close>, \<open>_getDynamicDisplayForms\<close> and the computed
  signal \<open>dynamicDisplayForms\<close> return exactly the list registered for \<open>c\<close> in
  \<open>dynamicDisplayFormsPattern\<close>, and that list holds no default field.
\<close>

theorem dynamicDisplayForms_is_pattern:
  "getDynamicDisplayForms c = dynamicDisplayFormsPattern c \<and>
   dynamicDisplayForms (Some c) = dynamicDisplayFormsPattern c \<and>
   set (dynamicDisplayForms (Some c)) \<inter> set defaultDisplayForms = {}"
  by (cases c)
    (simp_all add: dynamicDisplayForms_def getDynamicDisplayForms_def defaultDisplayForms_def)

text \<open>
  Claim C6: while the signal \<open>_currentCustomerType\<close> holds \<open>null\<close>, the computed signal
  yields what it yields for \<open>individual\<close>, namely the fields \<open>name\<close> and \<open>nameKana\<close>.
\<close>

theorem dynamicDisplayForms_null_fallback:
  "dynamicDisplayForms None = dynamicDisplayForms (Some individual) \<and>
   dynamicDisplayForms None = [name, nameKana]"
  by (simp add: dynamicDisplayForms_def getDynamicDisplayForms_def)

section \<open>Switching the validators\<close>

text \<open>
  Claim C2: on a form that has its five controls, \<open>_switchValidators\<close> returns normally;
  afterwards every field of the list passed in carries the validators the table
  \<open>formValidationManager\<close> gives it, with errors and status evaluated from those
  validators on its (unchanged) value, and every field that is neither in the list nor a
  default field has no validators, no errors and the status \<open>VALID\<close>.
\<close>

theorem switchValidators_applies_and_clears:
  assumes "dom f = UNIV"
  shows "\<exists>f'. switchValidators activeFields f = Inr f' \<and>
           (\<forall>field \<in> set activeFields. \<exists>c c'.
              f field = Some c \<and> f' field = Some c' \<and> value c' = value c \<and>
              map_of formValidationManager field = Some (validator c') \<and>
              errors c' = runValidators (validator c') (value c') \<and>
              status c' = (if errors c' = [] then VALID else INVALID)) \<and>
           (\<forall>field. field \<notin> set activeFields \<and> field \<notin> set defaultDisplayForms \<longrightarrow>
              (\<exists>c c'. f field = Some c \<and> f' field = Some c' \<and>
                 validator c' = [] \<and> errors c' = [] \<and> status c' = VALID))"
proof -
  let ?f' = "\<lambda>k. if k \<in> set activeFields then map_option (applyValidators k) (f k)
                  else if k \<in> set defaultDisplayForms then f k
                  else map_option removeValidators (f k)"
  have run: "switchValidators activeFields f = Inr ?f'"
    by (rule switchValidators_eq [OF assms])
  have active: "\<exists>c c'. f field = Some c \<and> ?f' field = Some c' \<and> value c' = value c \<and>
              map_of formValidationManager field = Some (validator c') \<and>
              errors c' = runValidators (validator c') (value c') \<and>
              status c' = (if errors c' = [] then VALID else INVALID)"
    if "field \<in> set activeFields" for field
  proof -
    from dom_UNIV_Some [OF assms] obtain c where c: "f field = Some c" by blast
    have "?f' field = Some (applyValidators field c)" using that c by simp
    with c show ?thesis
      using applyValidators_validator [of field c] applyValidators_errors [of field c]
        applyValidators_status [of field c] applyValidators_value [of field c]
      by blast
  qed
  have hidden: "\<exists>c c'. f field = Some c \<and> ?f' field = Some c' \<and>
                 validator c' = [] \<and> errors c' = [] \<and> status c' = VALID"
    if "field \<notin> set activeFields \<and> field \<notin> set defaultDisplayForms" for field
  proof -
    from dom_UNIV_Some [OF assms] obtain c where c: "f field = Some c" by blast
    have "?f' field = Some (removeValidators c)" using that c by simp
    with c show ?thesis by (simp add: removeValidators_eq)
  qed
  from run active hidden show ?thesis by blast
qed

text \<open>
  On the form as constructed, with the fields of \<open>individual\<close>: the empty \<open>name\<close> becomes
  required and invalid, and \<open>companyName\<close> is left without validators and valid.
\<close>

theorem switchValidators_applies_and_clears_witness:
  "dom switchForm = UNIV \<and>
   (\<exists>f'. switchValidators [name, nameKana] switchForm = Inr f' \<and>
      (\<exists>c'. f' name = Some c' \<and> validator c' = [required] \<and> status c' = INVALID) \<and>
      (\<exists>c'. f' companyName = Some c' \<and> validator c' = [] \<and> status c' = VALID))"
proof -
  from switchValidators_applies_and_clears [OF dom_switchForm, of "[name, nameKana]"]
  obtain f' where run: "switchValidators [name, nameKana] switchForm = Inr f'"
    and active: "\<forall>field \<in> set [name, nameKana]. \<exists>c c'.
              switchForm field = Some c \<and> f' field = Some c' \<and> value c' = value c \<and>
              map_of formValidationManager field = Some (validator c') \<and>
              errors c' = runValidators (validator c') (value c') \<and>
              status c' = (if errors c' = [] then VALID else INVALID)"
    and hidden: "\<forall>field. field \<notin> set [name, nameKana] \<and> field \<notin> set defaultDisplayForms \<longrightarrow>
              (\<exists>c c'. switchForm field = Some c \<and> f' field = Some c' \<and>
                 validator c' = [] \<and> errors c' = [] \<and> status c' = VALID)"
    by blast
  from active have "\<exists>c c'.
              switchForm name = Some c \<and> f' name = Some c' \<and> value c' = value c \<and>
              map_of formValidationManager name = Some (validator c') \<and>
              errors c' = runValidators (validator c') (value c') \<and>
              status c' = (if errors c' = [] then VALID else INVALID)" by simp
  then obtain c c' where c: "switchForm name = Some c" and c': "f' name = Some c'"
    and v: "value c' = value c"
    and m: "map_of formValidationManager name = Some (validator c')"
    and e: "errors c' = runValidators (validator c') (value c')"
    and s: "status c' = (if errors c' = [] then VALID else INVALID)"
    by blast
  from c have "value c = []" by (auto simp: switchForm_def newFormControl_def)
  moreover from m have "validator c' = [required]" by (simp add: formValidationManager_def)
  ultimately have "validator c' = [required] \<and> status c' = INVALID"
    using v e s by (simp add: runValidators_required)
  with c' have a: "\<exists>c'. f' name = Some c' \<and> validator c' = [required] \<and> status c' = INVALID"
    by blast
  from hidden have h: "\<exists>c'. f' companyName = Some c' \<and> validator c' = [] \<and> status c' = VALID"
    by (auto simp: defaultDisplayForms_def)
  from run a h show ?thesis by (auto simp: dom_switchForm)
qed

text \<open>
  Claim C3: on a form that has its five controls, \<open>_switchValidators\<close> with a list \<open>s\<close>
  returns a form on which a second call with the same \<open>s\<close> changes nothing: the
  validators, errors and status of every control are those left by the first call.
\<close>

theorem switchValidators_idempotent:
  assumes "dom f = UNIV"
  shows "\<exists>f'. switchValidators s f = Inr f' \<and> switchValidators s f' = Inr f'"
proof -
  from switchValidators_eq [OF assms] obtain f' where run: "switchValidators s f = Inr f'"
    by blast
  with switchValidators_fixed [OF assms run] show ?thesis by blast
qed

text \<open>
  The form as constructed, switched to the fields of \<open>corporate\<close> twice.
\<close>

theorem switchValidators_idempotent_witness:
  "dom switchForm = UNIV \<and>
   (\<exists>f'. switchValidators [companyName, companyNameKana] switchForm = Inr f' \<and>
         switchValidators [companyName, companyNameKana] f' = Inr f')"
  using switchValidators_idempotent [OF dom_switchForm, of "[companyName, companyNameKana]"]
  by (simp add: dom_switchForm)

text \<open>
  Claim C4: starting from the state \<open>f1\<close> the effect leaves for \<open>individual\<close>, the switch
  to \<open>corporate\<close> removes the validators and errors of \<open>name\<close> and \<open>nameKana\<close> and makes
  \<open>companyName\<close> and \<open>companyNameKana\<close> required; the switch back to \<open>individual\<close> makes
  \<open>name\<close> and \<open>nameKana\<close> required again, removes the validators of the two company
  fields, and the form is again \<open>f1\<close>.
\<close>

theorem category_round_trip:
  assumes "dom f = UNIV"
  shows "\<exists>f1 f2 f3.
           switchValidatorsEffect (Some individual) f = Inr f1 \<and>
           switchValidatorsEffect (Some corporate) f1 = Inr f2 \<and>
           switchValidatorsEffect (Some individual) f2 = Inr f3 \<and>
           (\<exists>n k cn ck.
              f2 name = Some n \<and> validator n = [] \<and> errors n = [] \<and> status n = VALID \<and>
              f2 nameKana = Some k \<and> validator k = [] \<and> errors k = [] \<and> status k = VALID \<and>
              f2 companyName = Some cn \<and> validator cn = [required] \<and>
              f2 companyNameKana = Some ck \<and> validator ck = [required]) \<and>
           (\<exists>n k cn ck.
              f3 name = Some n \<and> validator n = [required] \<and>
              f3 nameKana = Some k \<and> validator k = [required] \<and>
              f3 companyName = Some cn \<and> validator cn = [] \<and>
              f3 companyNameKana = Some ck \<and> validator ck = []) \<and>
           f3 = f1"
proof -
  let ?g = "\<lambda>s h k. if k \<in> set s then map_option (applyValidators k) (h k)
                  else if k \<in> set defaultDisplayForms then h k
                  else map_option removeValidators (h k)"
  let ?i = "dynamicDisplayForms (Some individual)" and ?c = "dynamicDisplayForms (Some corporate)"
  let ?f1 = "?g ?i f"
  let ?f2 = "?g ?c ?f1"
  let ?f3 = "?g ?i ?f2"
  have r1: "switchValidatorsEffect (Some individual) f = Inr ?f1"
    unfolding switchValidatorsEffect_def by (rule switchValidators_eq [OF assms])
  then have d1: "dom ?f1 = UNIV"
    unfolding switchValidatorsEffect_def by (rule switchValidators_dom [OF assms])
  have r2: "switchValidatorsEffect (Some corporate) ?f1 = Inr ?f2"
    unfolding switchValidatorsEffect_def by (rule switchValidators_eq [OF d1])
  then have d2: "dom ?f2 = UNIV"
    unfolding switchValidatorsEffect_def by (rule switchValidators_dom [OF d1])
  have r3: "switchValidatorsEffect (Some individual) ?f2 = Inr ?f3"
    unfolding switchValidatorsEffect_def by (rule switchValidators_eq [OF d2])
  have sets: "set ?i = {name, nameKana}" "set ?c = {companyName, companyNameKana}"
    "set defaultDisplayForms = {customerType}"
    by (simp_all add: dynamicDisplayForms_def getDynamicDisplayForms_def defaultDisplayForms_def)
  obtain a b c d where ex: "f name = Some a" "f nameKana = Some b"
    "f companyName = Some c" "f companyNameKana = Some d"
    using dom_UNIV_Some [OF assms] by metis
  have two: "\<exists>n k cn ck.
              ?f2 name = Some n \<and> validator n = [] \<and> errors n = [] \<and> status n = VALID \<and>
              ?f2 nameKana = Some k \<and> validator k = [] \<and> errors k = [] \<and> status k = VALID \<and>
              ?f2 companyName = Some cn \<and> validator cn = [required] \<and>
              ?f2 companyNameKana = Some ck \<and> validator ck = [required]"
    by (simp add: sets ex removeValidators_eq validator_applyValidators)
  have three: "\<exists>n k cn ck.
              ?f3 name = Some n \<and> validator n = [required] \<and>
              ?f3 nameKana = Some k \<and> validator k = [required] \<and>
              ?f3 companyName = Some cn \<and> validator cn = [] \<and>
              ?f3 companyNameKana = Some ck \<and> validator ck = []"
    by (simp add: sets ex removeValidators_eq validator_applyValidators)
  have same: "?f3 = ?f1"
  proof
    fix k
    show "?f3 k = ?f1 k"
      by (cases k)
        (simp_all add: sets ex applyValidators_removeValidators
          removeValidators_applyValidators)
  qed
  from r1 r2 r3 two three same show ?thesis by blast
qed

text \<open>
  The round trip on the form as constructed.
\<close>

theorem category_round_trip_witness:
  "dom switchForm = UNIV \<and>
   (\<exists>f1 f2 f3.
           switchValidatorsEffect (Some individual) switchForm = Inr f1 \<and>
           switchValidatorsEffect (Some corporate) f1 = Inr f2 \<and>
           switchValidatorsEffect (Some individual) f2 = Inr f3 \<and>
           (\<exists>n cn. f2 name = Some n \<and> validator n = [] \<and>
                    f2 companyName = Some cn \<and> validator cn = [required]) \<and>
           f3 = f1)"
  using category_round_trip [OF dom_switchForm]
  by (simp add: dom_switchForm) blast

section \<open>Invariants, totality and frame conditions\<close>

text \<open>
  Claim C5: from the form as constructed, any sequence of runs of the effect (one per
  value the signal takes, \<open>null\<close> included) returns normally and leaves \<open>customerType\<close>
  without validators; the same holds for any sequence of calls of \<open>_switchValidators\<close>
  with arbitrary lists of fields, since the table gives \<open>customerType\<close> no validator.
\<close>

theorem customerType_never_validated:
  "(\<exists>f' c. forEach switchValidatorsEffect cts switchForm = Inr f' \<and>
           f' customerType = Some c \<and> validator c = []) \<and>
   (\<exists>f' c. forEach switchValidators ddfs switchForm = Inr f' \<and>
           f' customerType = Some c \<and> validator c = [])"
proof -
  let ?I = "\<lambda>f. dom f = UNIV \<and> (\<exists>c. f customerType = Some c \<and> validator c = [])"
  have init: "?I switchForm"
    by (simp add: dom_switchForm) (simp add: switchForm_def newFormControl_def)
  have step: "\<exists>f'. switchValidators ddf f = Inr f' \<and> ?I f'" if "?I f" for ddf f
    using that switchValidators_customerType [of f _ ddf] by blast
  then have stepE: "\<exists>f'. switchValidatorsEffect ct f = Inr f' \<and> ?I f'" if "?I f" for ct f
    using that unfolding switchValidatorsEffect_def by blast
  have "\<exists>f'. forEach switchValidatorsEffect cts switchForm = Inr f' \<and> ?I f'"
    by (rule forEach_invariant [where I = ?I, OF stepE init])
  moreover have "\<exists>f'. forEach switchValidators ddfs switchForm = Inr f' \<and> ?I f'"
    by (rule forEach_invariant [where I = ?I, OF step init])
  ultimately show ?thesis by blast
qed

text \<open>
  Three runs of the effect: before the first selection, then \<open>corporate\<close>, then
  \<open>individual\<close>.
\<close>

theorem customerType_never_validated_witness:
  "\<exists>f' c. forEach switchValidatorsEffect [None, Some corporate, Some individual] switchForm = Inr f' \<and>
          f' customerType = Some c \<and> validator c = []"
  using customerType_never_validated [of "[None, Some corporate, Some individual]"] by blast

text \<open>
  Claim C7: \<open>_switchValidators\<close> is a function of the list and the form, so it is
  deterministic. On a form that has its five controls it returns normally for every list
  of fields, no lookup of a control fails, the returned form still has the five controls,
  and \<open>formValidationManager\<close> has an entry for every field. The form as constructed has
  the five controls.
\<close>

theorem switchValidators_total:
  assumes "dom f = UNIV"
  shows "(\<exists>f'. switchValidators ddf f = Inr f' \<and> dom f' = UNIV) \<and>
         (\<exists>fns. map_of formValidationManager form = Some fns) \<and>
         dom switchForm = UNIV"
proof -
  from switchValidators_eq [OF assms] obtain f' where run: "switchValidators ddf f = Inr f'"
    by blast
  with switchValidators_dom [OF assms run] show ?thesis
    by (simp add: formValidationManager_lookup dom_switchForm)
qed

text \<open>
  A list with a repeated field, a default field and fields of both categories.
\<close>

theorem switchValidators_total_witness:
  "dom switchForm = UNIV \<and>
   (\<exists>f'. switchValidators [companyNameKana, customerType, name, name] switchForm = Inr f') \<and>
   (\<exists>fns. map_of formValidationManager companyNameKana = Some fns)"
  using switchValidators_total [OF dom_switchForm, of "[companyNameKana, customerType, name, name]" companyNameKana]
  by blast

text \<open>
  Claim C8: \<open>_switchValidators\<close> leaves the value of every control as it was.
\<close>

theorem switchValidators_keeps_values:
  assumes "dom f = UNIV"
  shows "\<exists>f'. switchValidators ddf f = Inr f' \<and>
              (\<forall>k. map_option value (f' k) = map_option value (f k))"
proof -
  let ?f' = "\<lambda>k. if k \<in> set ddf then map_option (applyValidators k) (f k)
                  else if k \<in> set defaultDisplayForms then f k
                  else map_option removeValidators (f k)"
  have "switchValidators ddf f = Inr ?f'" by (rule switchValidators_eq [OF assms])
  moreover have "map_option value (?f' k) = map_option value (f k)" for k
    by (simp add: option.map_comp comp_def applyValidators_value value_removeValidators)
  ultimately show ?thesis by blast
qed

text \<open>
  A name typed in under \<open>individual\<close> is still there after the switch to the fields of
  \<open>corporate\<close>.
\<close>

theorem switchValidators_keeps_values_witness:
  "dom (switchForm(name \<mapsto> newFormControl ''Yamada'')) = UNIV \<and>
   (\<exists>f'. switchValidators [companyName, companyNameKana]
            (switchForm(name \<mapsto> newFormControl ''Yamada'')) = Inr f' \<and>
          map_option value (f' name) = Some ''Yamada'')"
proof -
  let ?f = "switchForm(name \<mapsto> newFormControl ''Yamada'')"
  have d: "dom ?f = UNIV" by (simp add: dom_switchForm)
  from switchValidators_keeps_values [OF d, of "[companyName, companyNameKana]"]
  obtain f' where run: "switchValidators [companyName, companyNameKana] ?f = Inr f'"
    and v: "\<forall>k. map_option value (f' k) = map_option value (?f k)" by blast
  from v have "map_option value (f' name) = Some ''Yamada''"
    by (simp add: newFormControl_def)
  with d run show ?thesis by blast
qed

text \<open>
  Claim C9: a field that is both a default field and in the list passed to
  \<open>_switchValidators\<close> is handled by the first loop and dropped by the filter of the
  second. After the call its control holds the value it had, the validators that
  \<open>formValidationManager\<close> gives the field, and errors and a status evaluated afresh from
  those validators on that value; a second call with the same list leaves the form as
  the first call left it.
\<close>

theorem default_and_active_is_applied:
  assumes "dom f = UNIV" and "field \<in> set ddf" and "field \<in> set defaultDisplayForms"
  shows "field \<notin> set (hiddenForms ddf) \<and>
         (\<exists>f' c c'. switchValidators ddf f = Inr f' \<and> f field = Some c \<and>
            f' field = Some c' \<and> c' = applyValidators field c \<and>
            value c' = value c \<and>
            map_of formValidationManager field = Some (validator c') \<and>
            errors c' = runValidators (validator c') (value c') \<and>
            status c' = (if errors c' = [] then VALID else INVALID) \<and>
            switchValidators ddf f' = Inr f')"
proof -
  let ?f' = "\<lambda>k. if k \<in> set ddf then map_option (applyValidators k) (f k)
                  else if k \<in> set defaultDisplayForms then f k
                  else map_option removeValidators (f k)"
  have run: "switchValidators ddf f = Inr ?f'" by (rule switchValidators_eq [OF assms(1)])
  from dom_UNIV_Some [OF assms(1)] obtain c where c: "f field = Some c" by blast
  have "?f' field = Some (applyValidators field c)" using assms(2) c by simp
  moreover have "switchValidators ddf ?f' = Inr ?f'"
    by (rule switchValidators_fixed [OF assms(1) run])
  moreover have "field \<notin> set (hiddenForms ddf)" using assms(2) by (simp add: hiddenForms_def)
  ultimately show ?thesis
    using run c applyValidators_validator [of field c] applyValidators_value [of field c]
      applyValidators_errors [of field c] applyValidators_status [of field c]
    by blast
qed

text \<open>
  The default field \<open>customerType\<close> passed in together with \<open>name\<close>, on a form whose
  \<open>customerType\<close> control is empty, required and invalid: the call replaces the validator
  by the empty table entry and the fresh evaluation makes the control valid.
\<close>

theorem default_and_active_is_applied_witness:
  "dom (switchForm(customerType \<mapsto>
          \<lparr>value = [], validator = [required], errors = [''required''], status = INVALID\<rparr>)) = UNIV \<and>
   customerType \<in> set [customerType, name] \<and>
   customerType \<in> set defaultDisplayForms \<and>
   customerType \<notin> set (hiddenForms [customerType, name]) \<and>
   (\<exists>f'. switchValidators [customerType, name]
            (switchForm(customerType \<mapsto>
               \<lparr>value = [], validator = [required], errors = [''required''],
                status = INVALID\<rparr>)) = Inr f' \<and>
      f' customerType = Some \<lparr>value = [], validator = [], errors = [], status = VALID\<rparr> \<and>
      switchValidators [customerType, name] f' = Inr f')"
proof -
  let ?c = "\<lparr>value = [], validator = [required], errors = [''required''], status = INVALID\<rparr>"
  let ?f = "switchForm(customerType \<mapsto> ?c)"
  have d: "dom ?f = UNIV" by (simp add: dom_switchForm)
  have a: "customerType \<in> set [customerType, name]" by simp
  have b: "customerType \<in> set defaultDisplayForms" by (simp add: defaultDisplayForms_def)
  from default_and_active_is_applied [OF d a b]
  obtain f' c c' where h: "customerType \<notin> set (hiddenForms [customerType, name])"
    and run: "switchValidators [customerType, name] ?f = Inr f'"
    and c: "?f customerType = Some c" and c': "f' customerType = Some c'"
    and v: "value c' = value c"
    and m: "map_of formValidationManager customerType = Some (validator c')"
    and e: "errors c' = runValidators (validator c') (value c')"
    and s: "status c' = (if errors c' = [] then VALID else INVALID)"
    and again: "switchValidators [customerType, name] f' = Inr f'"
    by blast
  from c have "value c = []" by auto
  moreover from m have "validator c' = []" by (simp add: formValidationManager_def)
  ultimately have "c' = \<lparr>value = [], validator = [], errors = [], status = VALID\<rparr>"
    using v e s by (simp add: runValidators_Nil)
  with c' run again h d a b show ?thesis by blast
qed

text \<open>
  Claim C10: a default field that is not in the list passed to \<open>_switchValidators\<close> keeps
  its control exactly as it was: validators, errors and status are neither set, cleared
  nor evaluated again.
\<close>

theorem default_field_untouched:
  assumes "dom f = UNIV" and "field \<in> set defaultDisplayForms" and "field \<notin> set ddf"
  shows "\<exists>f'. switchValidators ddf f = Inr f' \<and> f' field = f field"
  using assms by (simp add: switchValidators_eq)

text \<open>
  A \<open>customerType\<close> control that carries a validator and a status that was not evaluated
  from it comes out of the switch to \<open>corporate\<close> unchanged.
\<close>

theorem default_field_untouched_witness:
  "dom (switchForm(customerType \<mapsto>
          \<lparr>value = [], validator = [required], errors = [], status = VALID\<rparr>)) = UNIV \<and>
   customerType \<in> set defaultDisplayForms \<and> customerType \<notin> set (dynamicDisplayForms (Some corporate)) \<and>
   (\<exists>f'. switchValidators (dynamicDisplayForms (Some corporate))
            (switchForm(customerType \<mapsto>
               \<lparr>value = [], validator = [required], errors = [], status = VALID\<rparr>)) = Inr f' \<and>
      f' customerType = Some \<lparr>value = [], validator = [required], errors = [], status = VALID\<rparr>)"
proof -
  let ?f = "switchForm(customerType \<mapsto>
          \<lparr>value = [], validator = [required], errors = [], status = VALID\<rparr>)"
  have d: "dom ?f = UNIV" by (simp add: dom_switchForm)
  have a: "customerType \<in> set defaultDisplayForms" by (simp add: defaultDisplayForms_def)
  have b: "customerType \<notin> set (dynamicDisplayForms (Some corporate))"
    by (simp add: dynamicDisplayForms_def getDynamicDisplayForms_def)
  from default_field_untouched [OF d a b] d a b show ?thesis by simp
qed

end
